theory Spec2Isabelle
  imports Main "HOL-Library.Sublist" "HOL-Library.Log_Nat"
begin

section \<open>Python strings\<close>

text \<open>
  A Python \<open>str\<close> is modelled as a HOL \<open>string\<close>, a list of characters; \<open>len\<close> is
  \<open>length\<close>. HOL characters are the code points 0 to 255, so the model covers the texts
  whose code points lie in that range. The operations below are the ones
  \<^verbatim>\<open>dev_agent.py\<close> calls on strings: \<^verbatim>\<open>sub in s\<close>, \<^verbatim>\<open>s.endswith(t)\<close>,
  \<^verbatim>\<open>s.split('\n')\<close>, \<^verbatim>\<open>s.strip()\<close> and \<^verbatim>\<open>s.lower()\<close>.
\<close>

fun startswith :: "string \<Rightarrow> string \<Rightarrow> bool" where
  "startswith s [] = True"
| "startswith [] (p # ps) = False"
| "startswith (c # cs) (p # ps) = (c = p \<and> startswith cs ps)"

text \<open>\<open>contains sub s\<close> is Python's \<^verbatim>\<open>sub in s\<close>: \<open>sub\<close> occurs in \<open>s\<close> as a
  contiguous run of characters.\<close>

fun contains :: "string \<Rightarrow> string \<Rightarrow> bool" where
  "contains sub [] = (sub = [])"
| "contains sub (c # cs) = (startswith (c # cs) sub \<or> contains sub cs)"

definition endswith :: "string \<Rightarrow> string \<Rightarrow> bool" where
  "endswith s t = startswith (rev s) (rev t)"

text \<open>\<open>split s sep\<close> is \<^verbatim>\<open>s.split(sep)\<close> for a separator of one character:
  \<open>split_from s sep piece\<close> scans \<open>s\<close> from left to right with the piece read since
  the last separator, and closes the piece at every separator and at the end. The
  result is never empty: the empty string splits into one empty piece.\<close>

fun split_from :: "string \<Rightarrow> char \<Rightarrow> string \<Rightarrow> string list" where
  "split_from [] sep piece = [piece]"
| "split_from (c # cs) sep piece =
     (if c = sep then piece # split_from cs sep [] else split_from cs sep (piece @ [c]))"

definition split :: "string \<Rightarrow> char \<Rightarrow> string list" where
  "split s sep = split_from s sep []"

text \<open>The characters below 256 that \<^verbatim>\<open>str.strip()\<close> removes: tab, line feed,
  vertical tab, form feed, carriage return, the separators 28 to 31, space, next line
  (133) and no-break space (160).\<close>

definition isspace :: "char \<Rightarrow> bool" where
  "isspace c = ((of_char c :: nat) \<in> set [9, 10, 11, 12, 13, 28, 29, 30, 31, 32, 133, 160])"

definition strip :: "string \<Rightarrow> string" where
  "strip s = rev (dropWhile isspace (rev (dropWhile isspace s)))"

text \<open>\<^verbatim>\<open>str.lower()\<close> on the code points below 256: the letters A to Z and the
  accented capitals 192 to 214 and 216 to 222 move up by 32, every other character is
  left as it is.\<close>

definition lower_char :: "char \<Rightarrow> char" where
  "lower_char c =
     (let n = (of_char c :: nat)
      in if (65 \<le> n \<and> n \<le> 90) \<or> (192 \<le> n \<and> n \<le> 214) \<or> (216 \<le> n \<and> n \<le> 222)
         then char_of (n + 32) else c)"

definition lower :: "string \<Rightarrow> string" where
  "lower s = map lower_char s"

section \<open>Paths\<close>

text \<open>
  A \<^verbatim>\<open>pathlib.Path\<close> is modelled by its string form \<^verbatim>\<open>str(file_path)\<close>, with
  \<^verbatim>\<open>/\<close> as separator. \<open>path_name\<close> is \<^verbatim>\<open>Path.name\<close>, the final component;
  \<open>path_suffix\<close> is \<^verbatim>\<open>Path.suffix\<close> as pathlib computes it:
  \<^verbatim>\<open>i = name.rfind('.')\<close>, then \<^verbatim>\<open>name[i:]\<close> if \<^verbatim>\<open>0 < i < len(name) - 1\<close> and the
  empty string otherwise.
\<close>

definition path_name :: "string \<Rightarrow> string" where
  "path_name p = rev (takeWhile (\<lambda>c. c \<noteq> CHR ''/'') (rev p))"

definition rfind_dot :: "string \<Rightarrow> int" where
  "rfind_dot name =
     (if CHR ''.'' \<in> set name
      then int (length name) - 1 - int (length (takeWhile (\<lambda>c. c \<noteq> CHR ''.'') (rev name)))
      else - 1)"

definition path_suffix :: "string \<Rightarrow> string" where
  "path_suffix p =
     (let name = path_name p; i = rfind_dot name
      in if 0 < i \<and> i < int (length name) - 1 then drop (nat i) name else [])"

section \<open>Data model\<close>

text \<open>
  An issue is the dictionary with the keys \<^verbatim>\<open>severity\<close>, \<^verbatim>\<open>message\<close>, \<^verbatim>\<open>line\<close>
  and \<^verbatim>\<open>code\<close>; a suggestion is the dictionary with the keys \<^verbatim>\<open>title\<close>,
  \<^verbatim>\<open>description\<close>, \<^verbatim>\<open>code\<close> and \<^verbatim>\<open>impact\<close>. Both dictionaries have a key
  \<^verbatim>\<open>code\<close>, so the record fields carry the prefixes \<open>i_\<close> and \<open>s_\<close>. Severity and
  impact are strings, as in the source. Python's \<^verbatim>\<open>None\<close> is \<open>None\<close>.
\<close>

record issue =
  i_severity :: string
  i_message :: string
  i_line :: "nat option"
  i_code :: "string option"

record suggestion =
  s_title :: string
  s_description :: string
  s_code :: string
  s_impact :: string

section \<open>DevAgent.is\_code\_file\<close>

definition code_extensions :: "string list" where
  "code_extensions =
     [''.rs'', ''.js'', ''.ts'', ''.py'', ''.java'', ''.cpp'', ''.c'', ''.go'', ''.php'']"

definition is_code_file :: "string \<Rightarrow> bool" where
  "is_code_file file_path = (lower (path_suffix file_path) \<in> set code_extensions)"

section \<open>DevAgent.analyze\_code\<close>

text \<open>
  \<open>analyze_line\<close> is the body of the loop over the numbered lines: four checks in the
  order of the source, each appending at most one issue to the list built so far.
  \<open>analyze_code\<close> runs it over \<^verbatim>\<open>enumerate(lines, 1)\<close>, starting from the empty list.
\<close>

definition analyze_line :: "string \<Rightarrow> nat \<times> string \<Rightarrow> issue list \<Rightarrow> issue list" where
  \<open>analyze_line file_path il issues =
     (let i = fst il; line = snd il;
          issues1 =
            (if contains ''TODO'' line \<or> contains ''FIXME'' line
             then issues @ [\<lparr>i_severity = ''Medium'',
                             i_message = ''TODO or FIXME comment found'',
                             i_line = Some i, i_code = Some (strip line)\<rparr>]
             else issues);
          issues2 =
            (if length line > 120
             then issues1 @ [\<lparr>i_severity = ''Low'',
                              i_message = ''Line too long (over 120 characters)'',
                              i_line = Some i, i_code = Some (strip line)\<rparr>]
             else issues1);
          issues3 =
            (if contains ''"password"'' line \<or> contains ''"secret"'' line
             then issues2 @ [\<lparr>i_severity = ''High'',
                              i_message = ''Potential hardcoded secret found'',
                              i_line = Some i, i_code = Some (strip line)\<rparr>]
             else issues2);
          issues4 =
            (if contains ''.unwrap()'' line \<and> endswith file_path ''.rs''
             then issues3 @ [\<lparr>i_severity = ''High'',
                              i_message = ''Unsafe unwrap() usage found'',
                              i_line = Some i, i_code = Some (strip line)\<rparr>]
             else issues3)
      in issues4)\<close>

definition analyze_code :: "string \<Rightarrow> string \<Rightarrow> issue list" where
  "analyze_code content file_path =
     (let lines = split content (CHR 0x0A)
      in fold (analyze_line file_path) (enumerate 1 lines) [])"

section \<open>DevAgent.generate\_suggestions\<close>

definition generate_suggestions :: "string \<Rightarrow> string \<Rightarrow> suggestion list" where
  "generate_suggestions content file_path =
     (let suggestions1 =
            (if contains ''println!'' content \<and> endswith file_path ''.rs''
             then [\<lparr>s_title = ''Use structured logging'',
                    s_description = ''Consider using a logging framework instead of println!'',
                    s_code = ''use tracing::{info, warn, error};'',
                    s_impact = ''Medium''\<rparr>]
             else []);
          suggestions2 =
            (if contains ''.unwrap()'' content \<and> endswith file_path ''.rs''
             then suggestions1 @
                  [\<lparr>s_title = ''Handle errors properly'',
                    s_description = ''Consider using proper error handling instead of unwrap()'',
                    s_code = ''// Use .map_err() or ? operator instead'',
                    s_impact = ''High''\<rparr>]
             else suggestions1);
          suggestions3 =
            (if endswith file_path ''.py'' \<and> contains ''def '' content
             then suggestions2 @
                  [\<lparr>s_title = ''Add type hints'',
                    s_description = ''Consider adding type annotations for better code clarity'',
                    s_code = ''from typing import List, Dict, Optional'',
                    s_impact = ''Medium''\<rparr>]
             else suggestions2)
      in suggestions3)"

section \<open>Python floats\<close>

text \<open>
  A Python \<^verbatim>\<open>float\<close> is an IEEE 754 binary64 number. A finite float is modelled by
  the rational number it denotes, and every arithmetic operation of the source computes
  the exact result and rounds it to the nearest float, ties to the even significand
  (\<open>to_double\<close>). \<open>exponent x\<close> is the binary exponent of a nonzero \<open>x\<close>, the
  integer \<open>e\<close> with \<open>2\<^sup>e \<le> \<bar>x\<bar> < 2\<^sup>e\<^sup>+\<^sup>1\<close>; below \<open>2\<^sup>-\<^sup>1\<^sup>0\<^sup>2\<^sup>2\<close> the spacing
  of the floats stays that of the subnormal range. Overflow is not modelled: the
  floats of \<open>calculate_score\<close> are bounded by a tenth of a list length, and a Python
  list has fewer than \<open>2\<^sup>6\<^sup>3\<close> elements.
\<close>

definition pow2 :: "int \<Rightarrow> rat" where
  "pow2 k = (if 0 \<le> k then 2 ^ nat k else 1 / 2 ^ nat (- k))"

definition round_half_even :: "rat \<Rightarrow> int" where
  "round_half_even q =
     (let f = \<lfloor>q\<rfloor>; r = q - of_int f
      in if r < 1 / 2 then f
         else if 1 / 2 < r then f + 1
         else if even f then f else f + 1)"

definition exponent :: "rat \<Rightarrow> int" where
  "exponent x =
     (let ab = quotient_of \<bar>x\<bar>; d = bitlen (fst ab) - bitlen (snd ab)
      in if pow2 d \<le> \<bar>x\<bar> then d else d - 1)"

definition to_double :: "rat \<Rightarrow> rat" where
  "to_double x =
     (if x = 0 then 0
      else let e = max (exponent x) (- 1022); u = pow2 (e - 52)
           in of_int (round_half_even (x / u)) * u)"

text \<open>The operations of the source: \<^verbatim>\<open>a * b\<close>, \<^verbatim>\<open>a - b\<close>, \<^verbatim>\<open>a + b\<close> on floats,
  and the conversion of an \<^verbatim>\<open>int\<close> operand to a float.\<close>

definition fmul :: "rat \<Rightarrow> rat \<Rightarrow> rat" where
  "fmul a b = to_double (a * b)"

definition fsub :: "rat \<Rightarrow> rat \<Rightarrow> rat" where
  "fsub a b = to_double (a - b)"

definition fadd :: "rat \<Rightarrow> rat \<Rightarrow> rat" where
  "fadd a b = to_double (a + b)"

definition float_of_int :: "int \<Rightarrow> rat" where
  "float_of_int n = to_double (of_int n)"

section \<open>DevAgent.calculate\_score\<close>

text \<open>
  The literals \<^verbatim>\<open>1.0\<close>, \<^verbatim>\<open>0.5\<close> and \<^verbatim>\<open>0.0\<close> are floats; \<^verbatim>\<open>0.1\<close> is the float
  nearest to one tenth, \<open>to_double (1 / 10)\<close>. The second bonus tests
  \<^verbatim>\<open>str().endswith('.rs')\<close>, and \<^verbatim>\<open>str()\<close> is the empty string.
\<close>

definition calculate_score :: "string \<Rightarrow> issue list \<Rightarrow> rat" where
  "calculate_score content issues =
     (let score = 1;
          lines = split content (CHR 0x0A);
          total_lines = length lines
      in if total_lines = 0 then 1
         else
           let issue_penalty = fmul (float_of_int (int (length issues))) (to_double (1 / 10));
               score1 = fsub score (min issue_penalty (1 / 2));
               score2 = (if contains ''use tracing::'' content
                         then fadd score1 (to_double (1 / 10)) else score1);
               score3 = (if contains ''Result<'' content \<and> endswith [] ''.rs''
                         then fadd score2 (to_double (1 / 10)) else score2)
           in max 0 (min 1 score3))"

section \<open>DevAgent.review\_file\<close>

text \<open>
  \<open>code_review\<close> is the class \<^verbatim>\<open>CodeReview\<close>; its fields carry the prefix \<open>r_\<close>.
  The file system is the function \<open>read_file\<close>: for a path, \<open>Inr content\<close> when
  \<^verbatim>\<open>open\<close> and \<^verbatim>\<open>f.read()\<close> succeed, and \<open>Inl e\<close> when one of them raises an
  exception whose text \<^verbatim>\<open>str(e)\<close> is \<open>e\<close>. The clock read by
  \<^verbatim>\<open>datetime.utcnow()\<close> is the argument \<open>now\<close>.

  The handler of the \<^verbatim>\<open>try\<close> block calls \<^verbatim>\<open>print\<close> before it returns the degraded
  review. Standard output is the predicate \<open>print_raises\<close>: \<open>print_raises s\<close> holds
  when \<^verbatim>\<open>print(s)\<close> raises, as it does for a text that the encoding of the output
  cannot represent or for an output that is closed. Nothing encloses the handler, so
  that exception leaves \<open>review_file\<close>: the result is \<open>Inl PrintError\<close>. The text
  written is not recorded. On the path without failure nothing is printed.
\<close>

datatype error = PrintError

record code_review =
  r_file_path :: string
  r_issues :: "issue list"
  r_suggestions :: "suggestion list"
  r_score :: rat
  r_timestamp :: nat

definition review_file ::
  "(string \<Rightarrow> bool) \<Rightarrow> (string \<Rightarrow> string + string) \<Rightarrow> nat \<Rightarrow> string \<Rightarrow> error + code_review" where
  "review_file print_raises read_file now file_path =
     (case read_file file_path of
        Inr content \<Rightarrow>
          (let issues = analyze_code content file_path;
               suggestions = generate_suggestions content file_path;
               score = calculate_score content issues
           in Inr \<lparr>r_file_path = file_path, r_issues = issues,
                   r_suggestions = suggestions, r_score = score, r_timestamp = now\<rparr>)
      | Inl e \<Rightarrow>
          (if print_raises (''Error reviewing '' @ file_path @ '': '' @ e)
           then Inl PrintError
           else Inr \<lparr>r_file_path = file_path,
                     r_issues = [\<lparr>i_severity = ''Critical'',
                                  i_message = ''Error reading file: '' @ e,
                                  i_line = None, i_code = None\<rparr>],
                     r_suggestions = [], r_score = 0, r_timestamp = now\<rparr>))"

section \<open>The string operations meet their specifications\<close>

lemma startswith_prefix: "startswith s p = prefix p s"
  by (induction s p rule: startswith.induct) auto

lemma contains_sublist: "contains sub s = sublist sub s"
  by (induction s) (auto simp: startswith_prefix sublist_Cons_right)

lemma endswith_suffix: "endswith s t = suffix t s"
  by (simp add: endswith_def startswith_prefix suffix_to_prefix)

lemma split_from_not_Nil: "split_from s sep piece \<noteq> []"
  by (induction s arbitrary: piece) auto

lemma split_not_Nil: "split s sep \<noteq> []"
  by (simp add: split_def split_from_not_Nil)

text \<open>The pieces of a split, joined again by the separator, are the string; no piece
  holds the separator.\<close>

lemma split_from_join:
  "concat (map (\<lambda>l. sep # l) (split_from s sep piece)) = sep # piece @ s"
  by (induction s arbitrary: piece) auto

lemma split_join: "tl (concat (map (\<lambda>l. sep # l) (split s sep))) = s"
  by (simp add: split_def split_from_join)

lemma split_from_no_sep:
  "sep \<notin> set piece \<Longrightarrow> \<forall>l \<in> set (split_from s sep piece). sep \<notin> set l"
proof (induction s arbitrary: piece)
  case Nil
  then show ?case by simp
next
  case (Cons c cs)
  show ?case
  proof (cases "c = sep")
    case True
    then show ?thesis using Cons.IH [of "[]"] Cons.prems by simp
  next
    case False
    then show ?thesis using Cons.IH [of "piece @ [c]"] Cons.prems by simp
  qed
qed

lemma split_no_sep: "l \<in> set (split s sep) \<Longrightarrow> sep \<notin> set l"
  using split_from_no_sep [of sep "[]" s] by (simp add: split_def)

section \<open>Rounding to the nearest float\<close>

lemma pow2_powi: "pow2 k = 2 powi k"
  by (simp add: pow2_def power_int_def inverse_eq_divide power_one_over)

lemma pow2_pos: "0 < pow2 k"
  by (simp add: pow2_powi)

lemma pow2_add: "pow2 (a + b) = pow2 a * pow2 b"
  by (simp add: pow2_powi power_int_add)

lemma pow2_mono: "a \<le> b \<Longrightarrow> pow2 a \<le> pow2 b"
  by (simp add: pow2_powi power_int_increasing)

lemma pow2_nat: "0 \<le> k \<Longrightarrow> pow2 k = of_int (2 ^ nat k)"
  by (simp add: pow2_def)

lemma round_half_even_ge: "of_int n \<le> q \<Longrightarrow> n \<le> round_half_even q"
proof -
  assume "of_int n \<le> q"
  then have "n \<le> \<lfloor>q\<rfloor>" by (simp add: le_floor_iff)
  then show ?thesis by (simp add: round_half_even_def Let_def)
qed

lemma round_half_even_le: "q \<le> of_int n \<Longrightarrow> round_half_even q \<le> n"
proof -
  assume h: "q \<le> of_int n"
  show ?thesis
  proof (cases "q = of_int n")
    case True
    then show ?thesis by (simp add: round_half_even_def Let_def)
  next
    case False
    with h have "q < of_int n" by simp
    then have "\<lfloor>q\<rfloor> < n" by (simp add: floor_less_iff)
    then show ?thesis by (simp add: round_half_even_def Let_def)
  qed
qed

lemma exponent_lower: assumes "x \<noteq> 0" shows "pow2 (exponent x) \<le> \<bar>x\<bar>"
proof -
  obtain a b where ab: "quotient_of \<bar>x\<bar> = (a, b)" by (cases "quotient_of \<bar>x\<bar>")
  have b: "0 < b" using ab by (rule quotient_of_denom_pos)
  have x: "\<bar>x\<bar> = of_int a / of_int b" using ab by (rule quotient_of_div)
  have "0 < \<bar>x\<bar>" using assms by simp
  with x b have a: "0 < a" by (simp add: zero_less_divide_iff)
  let ?d = "bitlen a - bitlen b"
  have la: "(2::int) ^ nat (bitlen a - 1) \<le> a" using bitlen_bounds [OF a] by simp
  have ub: "b < (2::int) ^ nat (bitlen b)" using bitlen_bounds [OF b] by simp
  have ba: "1 \<le> bitlen a" using a bitlen_eq_zero_iff [of a] bitlen_nonneg [of a] by linarith
  have "pow2 (?d - 1) * of_int b \<le> pow2 (?d - 1) * pow2 (bitlen b)"
  proof -
    have "(of_int b :: rat) \<le> of_int (2 ^ nat (bitlen b))" using ub by (simp only: of_int_le_iff)
    also have "\<dots> = pow2 (bitlen b)" by (simp add: pow2_nat bitlen_nonneg)
    finally show ?thesis using pow2_pos [of "?d - 1"] by simp
  qed
  also have "\<dots> = pow2 (bitlen a - 1)" by (simp add: pow2_add [symmetric])
  also have "\<dots> = of_int (2 ^ nat (bitlen a - 1))" using ba by (simp add: pow2_nat)
  also have "\<dots> \<le> of_int a" using la by (simp only: of_int_le_iff)
  finally have "pow2 (?d - 1) \<le> of_int a / of_int b" using b by (simp add: pos_le_divide_eq)
  then have low: "pow2 (?d - 1) \<le> \<bar>x\<bar>" using x by simp
  show ?thesis using low ab by (simp add: exponent_def Let_def)
qed

lemma exponent_upper: assumes "x \<noteq> 0" shows "\<bar>x\<bar> < pow2 (exponent x + 1)"
proof -
  obtain a b where ab: "quotient_of \<bar>x\<bar> = (a, b)" by (cases "quotient_of \<bar>x\<bar>")
  have b: "0 < b" using ab by (rule quotient_of_denom_pos)
  have x: "\<bar>x\<bar> = of_int a / of_int b" using ab by (rule quotient_of_div)
  have "0 < \<bar>x\<bar>" using assms by simp
  with x b have a: "0 < a" by (simp add: zero_less_divide_iff)
  let ?d = "bitlen a - bitlen b"
  have ua: "a < (2::int) ^ nat (bitlen a)" using bitlen_bounds [OF a] by simp
  have lb: "(2::int) ^ nat (bitlen b - 1) \<le> b" using bitlen_bounds [OF b] by simp
  have bb: "1 \<le> bitlen b" using b bitlen_eq_zero_iff [of b] bitlen_nonneg [of b] by linarith
  have "(of_int a :: rat) < of_int (2 ^ nat (bitlen a))" using ua by (simp only: of_int_less_iff)
  also have "\<dots> = pow2 (bitlen a)" by (simp add: pow2_nat bitlen_nonneg)
  also have "\<dots> = pow2 (?d + 1) * pow2 (bitlen b - 1)" by (simp add: pow2_add [symmetric])
  also have "\<dots> \<le> pow2 (?d + 1) * of_int b"
  proof -
    have "pow2 (bitlen b - 1) = of_int (2 ^ nat (bitlen b - 1))" using bb by (simp add: pow2_nat)
    also have "\<dots> \<le> of_int b" using lb by (simp only: of_int_le_iff)
    finally show ?thesis using pow2_pos [of "?d + 1"] by simp
  qed
  finally have "of_int a / of_int b < pow2 (?d + 1)" using b by (simp add: pos_divide_less_eq)
  then have up: "\<bar>x\<bar> < pow2 (?d + 1)" using x by simp
  show ?thesis
  proof (cases "pow2 ?d \<le> \<bar>x\<bar>")
    case True
    then show ?thesis using up ab by (simp add: exponent_def Let_def)
  next
    case False
    then show ?thesis using ab by (simp add: exponent_def Let_def)
  qed
qed

lemma to_double_ge_pow2:
  assumes k: "- 1022 \<le> k" and x: "pow2 k \<le> x"
  shows "pow2 k \<le> to_double x"
proof -
  have xpos: "0 < x" using x pow2_pos [of k] by linarith
  define e where "e = max (exponent x) (- 1022)"
  define u where "u = pow2 (e - 52)"
  have upos: "0 < u" by (simp add: u_def pow2_pos)
  have td: "to_double x = of_int (round_half_even (x / u)) * u"
    using xpos by (simp add: to_double_def e_def u_def Let_def)
  show ?thesis
  proof (cases "e \<le> k + 52")
    case True
    define N :: int where "N = 2 ^ nat (k - (e - 52))"
    have pk: "pow2 k = of_int N * u"
    proof -
      have "pow2 k = pow2 ((k - (e - 52)) + (e - 52))" by simp
      also have "\<dots> = pow2 (k - (e - 52)) * u" unfolding u_def by (rule pow2_add)
      also have "pow2 (k - (e - 52)) = of_int N" using True by (simp add: pow2_nat N_def)
      finally show ?thesis .
    qed
    have "of_int N \<le> x / u" using x pk upos by (simp add: pos_le_divide_eq)
    then have "N \<le> round_half_even (x / u)" by (rule round_half_even_ge)
    then have "(of_int N :: rat) \<le> of_int (round_half_even (x / u))" by (simp only: of_int_le_iff)
    then show ?thesis using pk td upos by simp
  next
    case False
    then have ee: "e = exponent x" using k unfolding e_def max_def by (simp split: if_splits)
    have pe: "pow2 e = of_int (2 ^ 52) * u"
    proof -
      have "pow2 e = pow2 (52 + (e - 52))" by simp
      also have "\<dots> = pow2 52 * u" unfolding u_def by (rule pow2_add)
      finally show ?thesis by (simp add: pow2_def)
    qed
    have "pow2 e \<le> x" using exponent_lower [of x] xpos ee by simp
    then have "of_int (2 ^ 52) \<le> x / u" using pe upos by (simp add: pos_le_divide_eq)
    then have "2 ^ 52 \<le> round_half_even (x / u)" by (rule round_half_even_ge)
    then have "(of_int (2 ^ 52) :: rat) \<le> of_int (round_half_even (x / u))" by (simp only: of_int_le_iff)
    then have "pow2 e \<le> to_double x" using pe td upos by simp
    moreover have "pow2 k \<le> pow2 e" using False by (intro pow2_mono) simp
    ultimately show ?thesis by simp
  qed
qed

lemma to_double_ge_half: "1 / 2 \<le> x \<Longrightarrow> 1 / 2 \<le> to_double x"
  using to_double_ge_pow2 [of "- 1" x] by (simp add: pow2_def)

text \<open>The rounded value is a multiple of the spacing \<open>2\<^sup>e\<^sup>-\<^sup>5\<^sup>2\<close> of its binade and lies
  within half a spacing of the exact value. The sum \<^verbatim>\<open>0.1 + 0.2\<close> is the float above
  \<^verbatim>\<open>0.3\<close>, as in Python.\<close>

lemma round_half_even_nearest: "\<bar>of_int (round_half_even q) - q\<bar> \<le> 1 / 2"
proof -
  define r where "r = q - of_int \<lfloor>q\<rfloor>"
  have r: "0 \<le> r" "r < 1" unfolding r_def by linarith+
  have q: "q = of_int \<lfloor>q\<rfloor> + r" by (simp add: r_def)
  consider "r < 1 / 2" | "1 / 2 < r" | "r = 1 / 2" by linarith
  then show ?thesis
  proof cases
    case 1
    then have "round_half_even q = \<lfloor>q\<rfloor>"
      by (simp add: round_half_even_def Let_def r_def)
    then have "of_int (round_half_even q) - q = - r" by (simp add: r_def)
    then show ?thesis using r 1 by (simp add: abs_if)
  next
    case 2
    then have "round_half_even q = \<lfloor>q\<rfloor> + 1"
      by (simp add: round_half_even_def Let_def r_def)
    then have "of_int (round_half_even q) - q = 1 - r" by (simp add: r_def)
    then show ?thesis using r 2 by (simp add: abs_if)
  next
    case 3
    then have "round_half_even q = \<lfloor>q\<rfloor> \<or> round_half_even q = \<lfloor>q\<rfloor> + 1"
      by (simp add: round_half_even_def Let_def r_def)
    then have "of_int (round_half_even q) - q = - r \<or> of_int (round_half_even q) - q = 1 - r"
      by (auto simp: r_def)
    then show ?thesis using 3 by (auto simp: abs_if)
  qed
qed

lemma to_double_nearest:
  "\<bar>to_double x - x\<bar> \<le> pow2 (max (exponent x) (- 1022) - 53)"
proof (cases "x = 0")
  case True
  then show ?thesis using pow2_pos [of "max (exponent 0) (- 1022) - 53"] by (simp add: to_double_def)
next
  case False
  define u where "u = pow2 (max (exponent x) (- 1022) - 52)"
  have upos: "0 < u" by (simp add: u_def pow2_pos)
  have half: "pow2 (max (exponent x) (- 1022) - 53) = u / 2"
  proof -
    have "u = pow2 ((max (exponent x) (- 1022) - 53) + 1)" by (simp add: u_def)
    also have "\<dots> = pow2 (max (exponent x) (- 1022) - 53) * pow2 1" by (rule pow2_add)
    finally show ?thesis by (simp add: pow2_def)
  qed
  have "to_double x - x = (of_int (round_half_even (x / u)) - x / u) * u"
    using False upos by (simp add: to_double_def Let_def u_def [symmetric] algebra_simps)
  then have "\<bar>to_double x - x\<bar> = \<bar>of_int (round_half_even (x / u)) - x / u\<bar> * u"
    using upos by (simp add: abs_mult)
  also have "\<dots> \<le> (1 / 2) * u"
    using round_half_even_nearest [of "x / u"] upos by (intro mult_right_mono) simp_all
  finally show ?thesis by (simp add: half)
qed

lemma float_sum_example:
  "fadd (to_double (1 / 10)) (to_double (2 / 10)) = 1351079888211149 / 4503599627370496 \<and>
   to_double (3 / 10) = 5404319552844595 / 18014398509481984"
  by code_simp

lemma to_double_tenth: "to_double (1 / 10) = 3602879701896397 / 36028797018963968"
  by code_simp

lemma to_double_half: "to_double (1 / 2) = 1 / 2"
  by code_simp

lemma to_double_one: "to_double 1 = 1"
  by code_simp

section \<open>The loop of analyze\_code\<close>

lemma analyze_line_append:
  "analyze_line file_path il issues = issues @ analyze_line file_path il []"
  by (simp add: analyze_line_def Let_def)

lemma fold_analyze_line:
  "fold (analyze_line file_path) ils issues =
     issues @ concat (map (\<lambda>il. analyze_line file_path il []) ils)"
proof (induction ils arbitrary: issues)
  case Nil
  show ?case by simp
next
  case (Cons il ils)
  show ?case
    by (simp add: Cons.IH) (simp add: analyze_line_append [of file_path il issues])
qed

lemma analyze_code_concat:
  "analyze_code content file_path =
     concat (map (\<lambda>il. analyze_line file_path il []) (enumerate 1 (split content (CHR 0x0A))))"
  by (simp add: analyze_code_def fold_analyze_line)

section \<open>Facts shared by the properties below\<close>

lemma endswith_empty_rs: "endswith [] ''.rs'' = False"
  by (simp add: endswith_def)

lemma penalty_zero: "fmul (float_of_int 0) (to_double (1 / 10)) = 0"
  by (simp add: fmul_def float_of_int_def to_double_def)

lemma penalty_six: "fmul (float_of_int 6) (to_double (1 / 10)) = 1351079888211149 / 2251799813685248"
  by code_simp

lemma analyze_code_empty: "analyze_code [] file_path = []"
  by (simp add: analyze_code_def analyze_line_def split_def)

lemma analyze_code_newline: "analyze_code [CHR 0x0A] file_path = []"
  by (simp add: analyze_code_def analyze_line_def split_def)

lemma empty_content_pipeline:
  "analyze_code [] file_path = [] \<and>
   calculate_score [] (analyze_code [] file_path) = 1 \<and>
   analyze_code [CHR 0x0A] file_path = [] \<and>
   calculate_score [CHR 0x0A] (analyze_code [CHR 0x0A] file_path) = 1 \<and>
   min (fmul (float_of_int (int (length (analyze_code [] file_path)))) (to_double (1 / 10)))
       (1 / 2) = 0 \<and>
   min (fmul (float_of_int (int (length (analyze_code [CHR 0x0A] file_path))))
          (to_double (1 / 10))) (1 / 2) = 0 \<and>
   contains ''use tracing::'' [] = False \<and>
   contains ''use tracing::'' [CHR 0x0A] = False \<and>
   contains ''Result<'' [] = False \<and>
   contains ''Result<'' [CHR 0x0A] = False"
  by (simp add: analyze_code_empty analyze_code_newline calculate_score_def Let_def
      penalty_zero fsub_def to_double_one endswith_empty_rs split_def)

lemma score_ge_half: "1 / 2 \<le> calculate_score content issues"
proof -
  define p where "p = fmul (float_of_int (int (length issues))) (to_double (1 / 10))"
  define s1 where "s1 = fsub 1 (min p (1 / 2))"
  define s2 where "s2 = (if contains ''use tracing::'' content then fadd s1 (to_double (1 / 10)) else s1)"
  have h1: "1 / 2 \<le> s1"
    unfolding s1_def fsub_def by (rule to_double_ge_half) simp
  have h2: "1 / 2 \<le> s2"
  proof (cases "contains ''use tracing::'' content")
    case True
    have "1 / 2 \<le> to_double (s1 + to_double (1 / 10))"
      using h1 by (intro to_double_ge_half) (simp add: to_double_tenth)
    then show ?thesis using True by (simp add: s2_def fadd_def)
  next
    case False
    then show ?thesis using h1 by (simp add: s2_def)
  qed
  have "calculate_score content issues = max 0 (min 1 s2)"
    by (simp add: calculate_score_def Let_def split_not_Nil endswith_empty_rs s2_def s1_def p_def)
  then show ?thesis using h2 by simp
qed

lemma calculate_score_ignores_result_marker:
  "calculate_score content issues =
     (let score1 = fsub 1 (min (fmul (float_of_int (int (length issues))) (to_double (1 / 10))) (1 / 2));
          score2 = (if contains ''use tracing::'' content
                    then fadd score1 (to_double (1 / 10)) else score1)
      in max 0 (min 1 score2))"
  by (simp add: calculate_score_def Let_def split_not_Nil endswith_empty_rs)

lemma analyze_line_line_code:
  "x \<in> set (analyze_line file_path il []) \<Longrightarrow> i_line x \<noteq> None \<and> i_code x \<noteq> None"
  by (auto simp: analyze_line_def Let_def split: if_splits)

lemma analyze_code_line_code:
  "x \<in> set (analyze_code content file_path) \<Longrightarrow> i_line x \<noteq> None \<and> i_code x \<noteq> None"
  by (auto simp: analyze_code_concat dest: analyze_line_line_code)

lemma concat_enumerate_Nil:
  "\<forall>l \<in> set ls. \<forall>j. f (j, l) = [] \<Longrightarrow> concat (map f (enumerate n ls)) = []"
  by (induction ls arbitrary: n) auto

lemma analyze_line_quiet:
  \<open>\<not> contains ''TODO'' l \<and> \<not> contains ''FIXME'' l \<and> length l \<le> 120 \<and>
   \<not> contains ''"password"'' l \<and> \<not> contains ''"secret"'' l \<and>
   \<not> (contains ''.unwrap()'' l \<and> endswith file_path ''.rs'')
   \<Longrightarrow> analyze_line file_path (j, l) [] = []\<close>
  by (simp add: analyze_line_def Let_def)

lemma unwrap_issue_origin:
  "x \<in> set (analyze_line file_path il []) \<Longrightarrow> i_message x = ''Unsafe unwrap() usage found''
   \<Longrightarrow> endswith file_path ''.rs''"
  by (auto simp: analyze_line_def Let_def split: if_splits)

lemma no_unwrap_issue_outside_rs:
  assumes "\<not> endswith file_path ''.rs''"
  shows "\<forall>x \<in> set (analyze_code content file_path). i_message x \<noteq> ''Unsafe unwrap() usage found''"
  using assms unwrap_issue_origin by (auto simp: analyze_code_concat)

lemma endswith_rs_path_suffix:
  assumes "endswith file_path ''.rs''"
  shows "path_suffix file_path = ''.rs'' \<or> path_suffix file_path = []"
proof -
  from assms obtain pre where fp: "file_path = pre @ ''.rs''"
    by (auto simp: endswith_suffix suffix_def)
  define stem where "stem = rev (takeWhile (\<lambda>c. c \<noteq> CHR ''/'') (rev pre))"
  have name: "path_name file_path = stem @ ''.rs''"
    by (simp add: path_name_def fp stem_def)
  have i: "rfind_dot (stem @ ''.rs'') = int (length stem)"
    by (simp add: rfind_dot_def)
  show ?thesis
    by (simp add: path_suffix_def name i Let_def)
qed

section \<open>C1: the bonus for the fallible-result marker\<close>

text \<open>
  C1 says that the second bonus of 0.1 is added exactly when the content contains
  \<^verbatim>\<open>Result<\<close> and the path ends in \<^verbatim>\<open>.rs\<close>, so that every Rust file containing the
  marker receives it. The code tests the suffix of the empty string instead of the path,
  and the bonus is never added (\<open>calculate_score_ignores_result_marker\<close>). The theorem
  evaluates the review of a Rust file \<^verbatim>\<open>src/lib.rs\<close> whose content
  \<^verbatim>\<open>// TODO: return Result<u8>\<close> contains the marker and raises one issue: the score
  is the float 0.9, the same as for the content without the marker, while adding the
  bonus to 0.9 would give 1.0.
\<close>

theorem result_bonus_not_added:
  "endswith ''src/lib.rs'' ''.rs'' \<and>
   contains ''Result<'' ''// TODO: return Result<u8>'' \<and>
   review_file (\<lambda>s. False) (\<lambda>p. Inr ''// TODO: return Result<u8>'') 0 ''src/lib.rs''
     = Inr \<lparr>r_file_path = ''src/lib.rs'',
            r_issues = [\<lparr>i_severity = ''Medium'', i_message = ''TODO or FIXME comment found'',
                         i_line = Some 1, i_code = Some ''// TODO: return Result<u8>''\<rparr>],
            r_suggestions = [],
            r_score = 8106479329266893 / 9007199254740992, r_timestamp = 0\<rparr> \<and>
   review_file (\<lambda>s. False) (\<lambda>p. Inr ''// TODO: return u8'') 0 ''src/lib.rs''
     = Inr \<lparr>r_file_path = ''src/lib.rs'',
            r_issues = [\<lparr>i_severity = ''Medium'', i_message = ''TODO or FIXME comment found'',
                         i_line = Some 1, i_code = Some ''// TODO: return u8''\<rparr>],
            r_suggestions = [],
            r_score = 8106479329266893 / 9007199254740992, r_timestamp = 0\<rparr> \<and>
   fadd (8106479329266893 / 9007199254740992) (to_double (1 / 10)) = 1"
proof -
  have a: "endswith ''src/lib.rs'' ''.rs''"
    by (simp add: endswith_def)
  have b: "contains ''Result<'' ''// TODO: return Result<u8>''"
    by simp
  have i1: "analyze_code ''// TODO: return Result<u8>'' ''src/lib.rs'' =
              [\<lparr>i_severity = ''Medium'', i_message = ''TODO or FIXME comment found'',
                i_line = Some 1, i_code = Some ''// TODO: return Result<u8>''\<rparr>]"
    by (simp add: analyze_code_def analyze_line_def split_def Let_def strip_def isspace_def)
  have i2: "analyze_code ''// TODO: return u8'' ''src/lib.rs'' =
              [\<lparr>i_severity = ''Medium'', i_message = ''TODO or FIXME comment found'',
                i_line = Some 1, i_code = Some ''// TODO: return u8''\<rparr>]"
    by (simp add: analyze_code_def analyze_line_def split_def Let_def strip_def isspace_def)
  have s1: "generate_suggestions ''// TODO: return Result<u8>'' ''src/lib.rs'' = []"
    by (simp add: generate_suggestions_def Let_def)
  have s2: "generate_suggestions ''// TODO: return u8'' ''src/lib.rs'' = []"
    by (simp add: generate_suggestions_def Let_def)
  have c: "calculate_score ''// TODO: return Result<u8>''
             (analyze_code ''// TODO: return Result<u8>'' ''src/lib.rs'')
           = 8106479329266893 / 9007199254740992"
    by code_simp
  have d: "calculate_score ''// TODO: return u8''
             (analyze_code ''// TODO: return u8'' ''src/lib.rs'')
           = 8106479329266893 / 9007199254740992"
    by code_simp
  have e: "fadd (8106479329266893 / 9007199254740992) (to_double (1 / 10)) = 1"
    by code_simp
  have r1: "review_file (\<lambda>s. False) (\<lambda>p. Inr ''// TODO: return Result<u8>'') 0 ''src/lib.rs''
     = Inr \<lparr>r_file_path = ''src/lib.rs'',
            r_issues = [\<lparr>i_severity = ''Medium'', i_message = ''TODO or FIXME comment found'',
                         i_line = Some 1, i_code = Some ''// TODO: return Result<u8>''\<rparr>],
            r_suggestions = [],
            r_score = 8106479329266893 / 9007199254740992, r_timestamp = 0\<rparr>"
    using c by (simp add: review_file_def Let_def s1 i1)
  have r2: "review_file (\<lambda>s. False) (\<lambda>p. Inr ''// TODO: return u8'') 0 ''src/lib.rs''
     = Inr \<lparr>r_file_path = ''src/lib.rs'',
            r_issues = [\<lparr>i_severity = ''Medium'', i_message = ''TODO or FIXME comment found'',
                         i_line = Some 1, i_code = Some ''// TODO: return u8''\<rparr>],
            r_suggestions = [],
            r_score = 8106479329266893 / 9007199254740992, r_timestamp = 0\<rparr>"
    using d by (simp add: review_file_def Let_def s2 i2)
  show ?thesis
    by (intro conjI a b r1 r2 e)
qed

section \<open>C2: a failed read gives a degraded review\<close>

text \<open>
  C2 says that for every path whose read raises, \<open>review_file\<close> returns the degraded
  review and propagates no failure. The handler prints the error before it returns, and
  when that \<^verbatim>\<open>print\<close> raises no review is returned. The input is a path whose file
  name holds the code point 233 (the letter e with an acute accent), a read that raises
  with the text \<^verbatim>\<open>Permission denied\<close>, and an output that encodes ASCII only, on which
  \<^verbatim>\<open>print\<close> raises for every text with a code point above 127: the call ends in the
  exception of \<^verbatim>\<open>print\<close> and returns no review.
\<close>

theorem review_file_print_raises:
  "review_file (\<lambda>s. \<not> list_all (\<lambda>c. (of_char c :: nat) < 128) s)
     (\<lambda>p. Inl ''Permission denied'') 0 (''src/caf'' @ [CHR 0xE9] @ ''.py'')
   = Inl PrintError \<and>
   review_file (\<lambda>s. \<not> list_all (\<lambda>c. (of_char c :: nat) < 128) s)
     (\<lambda>p. Inl ''Permission denied'') 0 (''src/caf'' @ [CHR 0xE9] @ ''.py'')
   \<noteq> Inr \<lparr>r_file_path = ''src/caf'' @ [CHR 0xE9] @ ''.py'',
            r_issues = [\<lparr>i_severity = ''Critical'',
                         i_message = ''Error reading file: Permission denied'',
                         i_line = None, i_code = None\<rparr>],
            r_suggestions = [], r_score = 0, r_timestamp = 0\<rparr>"
  by (simp add: review_file_def)

text \<open>
  C2, amended: for every path whose read raises and whose error line the handler's
  \<^verbatim>\<open>print\<close> writes without raising, \<open>review_file\<close> returns a review whose issues
  are exactly one issue of severity Critical with no line and no code, whose suggestions
  are empty and whose score is 0.0. The failure of the read is not propagated.
\<close>

theorem review_file_read_failure:
  assumes "read_file file_path = Inl e"
    and "\<not> print_raises (''Error reviewing '' @ file_path @ '': '' @ e)"
  shows "review_file print_raises read_file now file_path =
           Inr \<lparr>r_file_path = file_path,
                r_issues = [\<lparr>i_severity = ''Critical'',
                             i_message = ''Error reading file: '' @ e,
                             i_line = None, i_code = None\<rparr>],
                r_suggestions = [], r_score = 0, r_timestamp = now\<rparr>"
  using assms by (simp add: review_file_def)

text \<open>A read that fails with \<^verbatim>\<open>Permission denied\<close> on \<^verbatim>\<open>src/locked.py\<close>, printed to
  an output that encodes ASCII only.\<close>

theorem review_file_read_failure_witness:
  "review_file (\<lambda>s. \<not> list_all (\<lambda>c. (of_char c :: nat) < 128) s)
     (\<lambda>p. Inl ''Permission denied'') 0 ''src/locked.py'' =
     Inr \<lparr>r_file_path = ''src/locked.py'',
          r_issues = [\<lparr>i_severity = ''Critical'',
                       i_message = ''Error reading file: Permission denied'',
                       i_line = None, i_code = None\<rparr>],
          r_suggestions = [], r_score = 0, r_timestamp = 0\<rparr>"
  using review_file_read_failure
    [where print_raises = "\<lambda>s. \<not> list_all (\<lambda>c. (of_char c :: nat) < 128) s"
       and read_file = "\<lambda>p. Inl ''Permission denied''" and file_path = "''src/locked.py''"
       and e = "''Permission denied''" and now = 0]
  by simp

section \<open>C3: empty content\<close>

text \<open>
  C3 says that for the empty content, and for the content that is one line feed,
  \<open>analyze_code\<close> returns no issue and \<open>calculate_score\<close> returns exactly 1.0 with
  no penalty and no bonus. The code means to return 1.0 at once when the content has no
  line, but it counts the pieces of \<^verbatim>\<open>content.split('\n')\<close>, of which there is always
  at least one (\<open>split_not_Nil\<close>): the test never holds and the penalty is applied to
  empty content as to any other. The theorem evaluates \<open>calculate_score\<close> on the empty
  content and on one line feed with a list of one issue: the empty content has one
  line, and the score is the float 0.9, not 1.0. On the issues that \<open>analyze_code\<close>
  itself returns for these contents, which are none, the score is 1.0
  (\<open>empty_content_pipeline\<close>).
\<close>

theorem empty_content_penalty_applied:
  "length (split [] (CHR 0x0A)) = 1 \<and>
   calculate_score []
     [\<lparr>i_severity = ''Medium'', i_message = ''TODO or FIXME comment found'',
       i_line = Some 1, i_code = Some ''# TODO''\<rparr>]
     = 8106479329266893 / 9007199254740992 \<and>
   length (split [CHR 0x0A] (CHR 0x0A)) = 2 \<and>
   calculate_score [CHR 0x0A]
     [\<lparr>i_severity = ''Medium'', i_message = ''TODO or FIXME comment found'',
       i_line = Some 1, i_code = Some ''# TODO''\<rparr>]
     = 8106479329266893 / 9007199254740992"
proof -
  have p: "fmul (float_of_int 1) (to_double (1 / 10)) = 3602879701896397 / 36028797018963968"
    by code_simp
  have q: "fsub 1 (3602879701896397 / 36028797018963968) = 8106479329266893 / 9007199254740992"
    by code_simp
  show ?thesis
    by (simp add: calculate_score_def Let_def split_def endswith_empty_rs p q)
qed

section \<open>C4: the score lies between 0 and 1\<close>

text \<open>
  C4: for every content and every list of issues, the value of \<open>calculate_score\<close>
  lies in the closed interval from 0.0 to 1.0.
\<close>

theorem calculate_score_clamped:
  "0 \<le> calculate_score content issues \<and> calculate_score content issues \<le> 1"
  by (simp add: calculate_score_def Let_def)

section \<open>C5: three rules firing on one line\<close>

text \<open>
  C5: when one line of the file contains \<^verbatim>\<open>TODO\<close>, has 130 characters and contains
  \<^verbatim>\<open>"secret"\<close>, the unwrap rule does not fire on it, and no rule fires on any other
  line, \<open>analyze_code\<close> returns exactly three issues, all with the 1-based number of
  that line, in the order of the checks: the marker comment (Medium), the line length
  (Low), the hardcoded secret (High).
\<close>

theorem marker_length_secret_in_order:
  assumes \<open>split content (CHR 0x0A) = pre @ line # post\<close>
    and \<open>contains ''TODO'' line\<close>
    and \<open>length line = 130\<close>
    and \<open>contains ''"secret"'' line\<close>
    and \<open>\<not> (contains ''.unwrap()'' line \<and> endswith file_path ''.rs'')\<close>
    and \<open>\<forall>l \<in> set (pre @ post).
           \<not> contains ''TODO'' l \<and> \<not> contains ''FIXME'' l \<and> length l \<le> 120 \<and>
           \<not> contains ''"password"'' l \<and> \<not> contains ''"secret"'' l \<and>
           \<not> (contains ''.unwrap()'' l \<and> endswith file_path ''.rs'')\<close>
  shows \<open>analyze_code content file_path =
           [\<lparr>i_severity = ''Medium'', i_message = ''TODO or FIXME comment found'',
             i_line = Some (length pre + 1), i_code = Some (strip line)\<rparr>,
            \<lparr>i_severity = ''Low'', i_message = ''Line too long (over 120 characters)'',
             i_line = Some (length pre + 1), i_code = Some (strip line)\<rparr>,
            \<lparr>i_severity = ''High'', i_message = ''Potential hardcoded secret found'',
             i_line = Some (length pre + 1), i_code = Some (strip line)\<rparr>]\<close>
proof -
  let ?f = "\<lambda>il. analyze_line file_path il []"
  have quiet: "\<forall>l \<in> set (pre @ post). \<forall>j. ?f (j, l) = []"
    using assms(6) analyze_line_quiet by blast
  have pre: "concat (map ?f (enumerate 1 pre)) = []"
    using quiet by (intro concat_enumerate_Nil) simp
  have post: "concat (map ?f (enumerate (Suc (1 + length pre)) post)) = []"
    using quiet by (intro concat_enumerate_Nil) simp
  have "analyze_code content file_path =
          concat (map ?f (enumerate 1 pre)) @ ?f (1 + length pre, line) @
          concat (map ?f (enumerate (Suc (1 + length pre)) post))"
    by (simp add: analyze_code_concat assms(1) enumerate_append_eq)
  also have "\<dots> = ?f (1 + length pre, line)"
    by (simp only: pre post append_Nil append_Nil2)
  also have "\<dots> = [\<lparr>i_severity = ''Medium'', i_message = ''TODO or FIXME comment found'',
             i_line = Some (length pre + 1), i_code = Some (strip line)\<rparr>,
            \<lparr>i_severity = ''Low'', i_message = ''Line too long (over 120 characters)'',
             i_line = Some (length pre + 1), i_code = Some (strip line)\<rparr>,
            \<lparr>i_severity = ''High'', i_message = ''Potential hardcoded secret found'',
             i_line = Some (length pre + 1), i_code = Some (strip line)\<rparr>]"
    using assms(2-5) by (simp add: analyze_line_def Let_def)
  finally show ?thesis .
qed

text \<open>A file of two lines whose second line has 130 characters, with \<^verbatim>\<open>TODO\<close> and
  \<^verbatim>\<open>"secret"\<close> on it: the three issues carry the line number 2.\<close>

theorem marker_length_secret_in_order_witness:
  \<open>analyze_code (''import os'' @ [CHR 0x0A] @ ''key = "secret"  # TODO -----------------------------------------------------------------------------------------------------------'') ''settings.py'' =
     [\<lparr>i_severity = ''Medium'', i_message = ''TODO or FIXME comment found'',
       i_line = Some 2, i_code = Some ''key = "secret"  # TODO -----------------------------------------------------------------------------------------------------------''\<rparr>,
      \<lparr>i_severity = ''Low'', i_message = ''Line too long (over 120 characters)'',
       i_line = Some 2, i_code = Some ''key = "secret"  # TODO -----------------------------------------------------------------------------------------------------------''\<rparr>,
      \<lparr>i_severity = ''High'', i_message = ''Potential hardcoded secret found'',
       i_line = Some 2, i_code = Some ''key = "secret"  # TODO -----------------------------------------------------------------------------------------------------------''\<rparr>]\<close>
proof -
  let ?line = \<open>''key = "secret"  # TODO -----------------------------------------------------------------------------------------------------------''\<close>
  have h1: "split (''import os'' @ [CHR 0x0A] @ ?line) (CHR 0x0A) = [''import os''] @ ?line # []"
    by (simp add: split_def)
  have h2: "contains ''TODO'' ?line"
    by simp
  have h3: "length ?line = 130"
    by simp
  have h4: \<open>contains ''"secret"'' ?line\<close>
    by simp
  have h5: "\<not> (contains ''.unwrap()'' ?line \<and> endswith ''settings.py'' ''.rs'')"
    by (simp add: endswith_def)
  have h6: \<open>\<forall>l \<in> set ([''import os''] @ []).
           \<not> contains ''TODO'' l \<and> \<not> contains ''FIXME'' l \<and> length l \<le> 120 \<and>
           \<not> contains ''"password"'' l \<and> \<not> contains ''"secret"'' l \<and>
           \<not> (contains ''.unwrap()'' l \<and> endswith ''settings.py'' ''.rs'')\<close>
    by simp
  have s: "strip ?line = ?line"
    by (simp add: strip_def isspace_def)
  from marker_length_secret_in_order [OF h1 h2 h3 h4 h5 h6] show ?thesis
    by (simp only: s) simp
qed

section \<open>C6: the unwrap rule is gated by the path\<close>

text \<open>
  C6: for every content and path, a line containing \<^verbatim>\<open>.unwrap()\<close> makes
  \<open>analyze_code\<close> emit the High issue of the unwrap rule for that line if and only if
  the path ends in \<^verbatim>\<open>.rs\<close>; under a path that does not end in \<^verbatim>\<open>.rs\<close> no issue of
  the unwrap rule is emitted at all.
\<close>

theorem unwrap_issue_iff_rs:
  assumes "(i, line) \<in> set (enumerate 1 (split content (CHR 0x0A)))"
    and "contains ''.unwrap()'' line"
  shows "(\<lparr>i_severity = ''High'', i_message = ''Unsafe unwrap() usage found'',
           i_line = Some i, i_code = Some (strip line)\<rparr>
            \<in> set (analyze_code content file_path)) = endswith file_path ''.rs'' \<and>
         (\<not> endswith file_path ''.rs'' \<longrightarrow>
            (\<forall>x \<in> set (analyze_code content file_path).
               i_message x \<noteq> ''Unsafe unwrap() usage found''))"
proof (intro conjI impI)
  let ?u = "\<lparr>i_severity = ''High'', i_message = ''Unsafe unwrap() usage found'',
             i_line = Some i, i_code = Some (strip line)\<rparr>"
  show "(?u \<in> set (analyze_code content file_path)) = endswith file_path ''.rs''"
  proof
    assume "?u \<in> set (analyze_code content file_path)"
    then obtain il where "?u \<in> set (analyze_line file_path il [])"
      by (auto simp: analyze_code_concat)
    then show "endswith file_path ''.rs''"
      by (rule unwrap_issue_origin) simp
  next
    assume rs: "endswith file_path ''.rs''"
    have "?u \<in> set (analyze_line file_path (i, line) [])"
      using rs assms(2) by (simp add: analyze_line_def Let_def)
    then show "?u \<in> set (analyze_code content file_path)"
      using assms(1) by (auto simp: analyze_code_concat)
  qed
next
  assume "\<not> endswith file_path ''.rs''"
  then show "\<forall>x \<in> set (analyze_code content file_path).
               i_message x \<noteq> ''Unsafe unwrap() usage found''"
    by (rule no_unwrap_issue_outside_rs)
qed

text \<open>The same line under \<^verbatim>\<open>src/main.rs\<close> and under \<^verbatim>\<open>src/main.py\<close>.\<close>

theorem unwrap_issue_iff_rs_witness:
  "\<lparr>i_severity = ''High'', i_message = ''Unsafe unwrap() usage found'',
     i_line = Some 1, i_code = Some ''let v = r.unwrap();''\<rparr>
     \<in> set (analyze_code ''  let v = r.unwrap();'' ''src/main.rs'') \<and>
   \<lparr>i_severity = ''High'', i_message = ''Unsafe unwrap() usage found'',
     i_line = Some 1, i_code = Some ''let v = r.unwrap();''\<rparr>
     \<notin> set (analyze_code ''  let v = r.unwrap();'' ''src/main.py'')"
proof -
  have h1: "(1, ''  let v = r.unwrap();'')
              \<in> set (enumerate 1 (split ''  let v = r.unwrap();'' (CHR 0x0A)))"
    by (simp add: split_def)
  have h2: "contains ''.unwrap()'' ''  let v = r.unwrap();''"
    by simp
  have s: "strip ''  let v = r.unwrap();'' = ''let v = r.unwrap();''"
    by (simp add: strip_def isspace_def)
  have rs: "endswith ''src/main.rs'' ''.rs''"
    by (simp add: endswith_def)
  have py: "\<not> endswith ''src/main.py'' ''.rs''"
    by (simp add: endswith_def)
  from unwrap_issue_iff_rs [OF h1 h2, of "''src/main.rs''"]
       unwrap_issue_iff_rs [OF h1 h2, of "''src/main.py''"]
  show ?thesis
    by (simp only: s rs py) simp
qed

section \<open>C7: each suggestion at most once, in a fixed order\<close>

text \<open>
  C7: for every content and path, the result of \<open>generate_suggestions\<close> is a
  subsequence of the three suggestions in their fixed order (structured logging, error
  handling, type hints) and holds no suggestion twice, however often the patterns occur
  in the content.
\<close>

theorem generate_suggestions_once_in_order:
  "subseq (generate_suggestions content file_path)
     [\<lparr>s_title = ''Use structured logging'',
       s_description = ''Consider using a logging framework instead of println!'',
       s_code = ''use tracing::{info, warn, error};'',
       s_impact = ''Medium''\<rparr>,
      \<lparr>s_title = ''Handle errors properly'',
       s_description = ''Consider using proper error handling instead of unwrap()'',
       s_code = ''// Use .map_err() or ? operator instead'',
       s_impact = ''High''\<rparr>,
      \<lparr>s_title = ''Add type hints'',
       s_description = ''Consider adding type annotations for better code clarity'',
       s_code = ''from typing import List, Dict, Optional'',
       s_impact = ''Medium''\<rparr>]
   \<and> distinct (generate_suggestions content file_path)"
  by (simp add: generate_suggestions_def Let_def)

section \<open>C8: the penalty is capped at 0.5\<close>

text \<open>
  C8: for every content without the marker \<^verbatim>\<open>use tracing::\<close> and every list of six
  issues, \<open>calculate_score\<close> returns exactly 0.5; and for every content and every list
  of issues the score is at least 0.5, so the number of issues alone never drives it
  below 0.5.
\<close>

theorem six_issues_score_half:
  "(\<not> contains ''use tracing::'' content \<and> length issues = 6
      \<longrightarrow> calculate_score content issues = 1 / 2) \<and>
   1 / 2 \<le> calculate_score content issues"
proof (intro conjI impI)
  assume h: "\<not> contains ''use tracing::'' content \<and> length issues = 6"
  then show "calculate_score content issues = 1 / 2"
    by (simp add: calculate_score_def Let_def split_not_Nil endswith_empty_rs penalty_six
        fsub_def to_double_half)
next
  show "1 / 2 \<le> calculate_score content issues" by (rule score_ge_half)
qed

text \<open>Six lines with a marker comment each give six issues and the score 0.5.\<close>

theorem six_issues_score_half_witness:
  "calculate_score
     (''# TODO'' @ [CHR 0x0A] @ ''# TODO'' @ [CHR 0x0A] @ ''# TODO'' @ [CHR 0x0A] @
      ''# FIXME'' @ [CHR 0x0A] @ ''# FIXME'' @ [CHR 0x0A] @ ''# FIXME'')
     (analyze_code
        (''# TODO'' @ [CHR 0x0A] @ ''# TODO'' @ [CHR 0x0A] @ ''# TODO'' @ [CHR 0x0A] @
         ''# FIXME'' @ [CHR 0x0A] @ ''# FIXME'' @ [CHR 0x0A] @ ''# FIXME'') ''notes.py'')
   = 1 / 2"
proof -
  let ?c = "''# TODO'' @ [CHR 0x0A] @ ''# TODO'' @ [CHR 0x0A] @ ''# TODO'' @ [CHR 0x0A] @
            ''# FIXME'' @ [CHR 0x0A] @ ''# FIXME'' @ [CHR 0x0A] @ ''# FIXME''"
  have h1: "\<not> contains ''use tracing::'' ?c"
    by simp
  have h2: "length (analyze_code ?c ''notes.py'') = 6"
    by (simp add: analyze_code_def analyze_line_def split_def Let_def endswith_def
        enumerate_eq_zip upt_rec)
  from six_issues_score_half [of ?c "analyze_code ?c ''notes.py''"] h1 h2
  show ?thesis by blast
qed

section \<open>C9: line and code are present together\<close>

text \<open>
  C9: in every issue that \<open>analyze_code\<close> returns and in every issue of a review
  returned by \<open>review_file\<close>, on the success path and on the failure path, the fields
  \<^verbatim>\<open>line\<close> and \<^verbatim>\<open>code\<close> are both present or both absent.
\<close>

theorem issue_line_code_together:
  "(\<forall>x \<in> set (analyze_code content file_path). (i_line x = None) = (i_code x = None)) \<and>
   (\<forall>r. review_file print_raises read_file now file_path = Inr r \<longrightarrow>
      (\<forall>x \<in> set (r_issues r). (i_line x = None) = (i_code x = None)))"
proof -
  have a: "\<And>c. \<forall>x \<in> set (analyze_code c file_path). (i_line x = None) = (i_code x = None)"
    using analyze_code_line_code by blast
  show ?thesis
    using a
    by (cases "read_file file_path") (auto simp: review_file_def Let_def split: if_splits)
qed

text \<open>One issue of each kind: an issue found on a line, and the issue of a failed read.\<close>

theorem issue_line_code_together_witness:
  "\<lparr>i_severity = ''Medium'', i_message = ''TODO or FIXME comment found'',
     i_line = Some 1, i_code = Some ''# TODO''\<rparr> \<in> set (analyze_code ''# TODO'' ''a.py'') \<and>
   (i_line \<lparr>i_severity = ''Medium'', i_message = ''TODO or FIXME comment found'',
            i_line = Some 1, i_code = Some ''# TODO''\<rparr> = None)
   = (i_code \<lparr>i_severity = ''Medium'', i_message = ''TODO or FIXME comment found'',
             i_line = Some 1, i_code = Some ''# TODO''\<rparr> = None) \<and>
   review_file (\<lambda>s. False) (\<lambda>p. Inl ''Permission denied'') 0 ''a.py'' =
     Inr \<lparr>r_file_path = ''a.py'',
          r_issues = [\<lparr>i_severity = ''Critical'',
                       i_message = ''Error reading file: Permission denied'',
                       i_line = None, i_code = None\<rparr>],
          r_suggestions = [], r_score = 0, r_timestamp = 0\<rparr> \<and>
   (i_line \<lparr>i_severity = ''Critical'', i_message = ''Error reading file: Permission denied'',
            i_line = None, i_code = None\<rparr> = None)
   = (i_code \<lparr>i_severity = ''Critical'', i_message = ''Error reading file: Permission denied'',
             i_line = None, i_code = None\<rparr> = None)"
proof -
  let ?x = "\<lparr>i_severity = ''Medium'', i_message = ''TODO or FIXME comment found'',
             i_line = Some 1, i_code = Some ''# TODO''\<rparr>"
  let ?y = "\<lparr>i_severity = ''Critical'', i_message = ''Error reading file: Permission denied'',
             i_line = None, i_code = None\<rparr>"
  let ?R = "\<lparr>r_file_path = ''a.py'', r_issues = [?y],
             r_suggestions = [], r_score = 0, r_timestamp = 0\<rparr>"
  let ?pr = "\<lambda>s :: string. False"
  let ?rd = "\<lambda>p :: string. Inl ''Permission denied'' :: string + string"
  have m1: "?x \<in> set (analyze_code ''# TODO'' ''a.py'')"
    by (simp add: analyze_code_def analyze_line_def split_def Let_def endswith_def
        strip_def isspace_def)
  have m2: "review_file ?pr ?rd 0 ''a.py'' = Inr ?R"
    by (simp add: review_file_def)
  have m3: "?y \<in> set (r_issues ?R)"
    by simp
  note t = issue_line_code_together [of "''# TODO''" "''a.py''" ?pr ?rd 0]
  have p1: "(i_line ?x = None) = (i_code ?x = None)"
    using t m1 by blast
  have p2: "(i_line ?y = None) = (i_code ?y = None)"
    using t m2 m3 by blast
  show ?thesis
    by (intro conjI m1 m2 p1 p2)
qed

section \<open>C10: the extension test differs in case between the file filter and the rules\<close>

text \<open>
  C10: for every path whose suffix is \<^verbatim>\<open>.rs\<close> in a spelling that is not all lower
  case, \<open>is_code_file\<close> accepts the path, yet \<open>analyze_code\<close> emits no issue of the
  unwrap rule and \<open>generate_suggestions\<close> emits neither of the two suggestions gated
  by \<^verbatim>\<open>.rs\<close>, whatever the content.
\<close>

theorem uppercase_rs_reviewed_but_ungated:
  assumes "lower (path_suffix file_path) = ''.rs''"
    and "path_suffix file_path \<noteq> ''.rs''"
  shows "is_code_file file_path \<and>
         (\<forall>x \<in> set (analyze_code content file_path).
            i_message x \<noteq> ''Unsafe unwrap() usage found'') \<and>
         (\<forall>s \<in> set (generate_suggestions content file_path).
            s_title s \<noteq> ''Use structured logging'' \<and> s_title s \<noteq> ''Handle errors properly'')"
proof -
  have nrs: "\<not> endswith file_path ''.rs''"
  proof
    assume "endswith file_path ''.rs''"
    then have "path_suffix file_path = ''.rs'' \<or> path_suffix file_path = []"
      by (rule endswith_rs_path_suffix)
    then show False using assms by (auto simp: lower_def)
  qed
  have a: "is_code_file file_path"
    using assms(1) by (simp add: is_code_file_def code_extensions_def)
  have b: "\<forall>x \<in> set (analyze_code content file_path).
            i_message x \<noteq> ''Unsafe unwrap() usage found''"
    using nrs by (rule no_unwrap_issue_outside_rs)
  have c: "\<forall>s \<in> set (generate_suggestions content file_path).
            s_title s \<noteq> ''Use structured logging'' \<and> s_title s \<noteq> ''Handle errors properly''"
    using nrs by (simp add: generate_suggestions_def Let_def)
  show ?thesis using a b c by blast
qed

text \<open>The path \<^verbatim>\<open>src/main.RS\<close>, with a content on which both Rust rules would fire.\<close>

theorem uppercase_rs_reviewed_but_ungated_witness:
  "is_code_file ''src/main.RS'' \<and>
   \<lparr>i_severity = ''High'', i_message = ''Unsafe unwrap() usage found'',
     i_line = Some 1, i_code = Some ''println!(r.unwrap());''\<rparr>
     \<notin> set (analyze_code ''println!(r.unwrap());'' ''src/main.RS'') \<and>
   \<lparr>s_title = ''Use structured logging'',
     s_description = ''Consider using a logging framework instead of println!'',
     s_code = ''use tracing::{info, warn, error};'',
     s_impact = ''Medium''\<rparr>
     \<notin> set (generate_suggestions ''println!(r.unwrap());'' ''src/main.RS'') \<and>
   \<lparr>s_title = ''Handle errors properly'',
     s_description = ''Consider using proper error handling instead of unwrap()'',
     s_code = ''// Use .map_err() or ? operator instead'',
     s_impact = ''High''\<rparr>
     \<notin> set (generate_suggestions ''println!(r.unwrap());'' ''src/main.RS'')"
proof -
  have sfx: "path_suffix ''src/main.RS'' = ''.RS''"
    by (simp add: path_suffix_def path_name_def rfind_dot_def Let_def)
  have low: "lower ''.RS'' = ''.rs''"
    by code_simp
  have h1: "lower (path_suffix ''src/main.RS'') = ''.rs''"
    by (simp only: sfx low)
  have h2: "path_suffix ''src/main.RS'' \<noteq> ''.rs''"
    by (simp add: sfx)
  from uppercase_rs_reviewed_but_ungated [OF h1 h2, of "''println!(r.unwrap());''"]
  show ?thesis
    by auto
qed

end
